theory Spec2Isabelle
  imports Complex_Main
begin

section \<open>Data model of enso.graphics.font\<close>

text \<open>
  Python values: a font identifier or file path is a byte string; the attribute
  \<open>font_name\<close> is \<open>None\<close> or a string; sizes and metrics are Python floats, taken here
  as exact reals (rounding is not part of the model). A Unicode character is its code
  point.
\<close>

type_synonym uchar = nat

datatype slant = FONT_SLANT_NORMAL | FONT_SLANT_ITALIC

datatype weight = FONT_WEIGHT_NORMAL

text \<open>
  The exceptions of the model. \<open>No_such_object\<close> stands for a reference that denotes no
  object; Python has no such reference (a reference keeps its object alive), the model
  needs the case to be total.
\<close>

datatype error = KeyError string | TypeError | AttributeError | CairoError | No_such_object

text \<open>The entry of the platform font registry for one font; only \<open>'filepath'\<close> is read.\<close>

record font_detail =
  filepath :: string

text \<open>The four messages the module hands to \<open>logging\<close>, with their level.\<close>

datatype log_record =
    Info_Font_used font_detail
  | Error_font_not_found string
  | Error_no_FONT_NAME
  | Warning_default_Arial

text \<open>
  Modelled from the spec: the rendering backend (enso.cairo) is not part of the source
  files. The spec lists its operations (select a face, set a size, query font and
  character extents); \<open>save\<close> and \<open>restore\<close> push and pop the graphics state, of which
  the selected face and size are part, and \<open>restore\<close> without a matching \<open>save\<close> is an
  error. \<open>history\<close> records every call made on the context, in order.
\<close>

record gstate =
  font_face :: "(string \<times> slant \<times> weight) option"
  font_size :: real

datatype cairo_call =
    Save
  | Restore
  | Select_font_face string slant weight
  | Set_font_size real
  | Font_extents
  | Text_extents string

record cairo_context =
  current :: gstate
  saved :: "gstate list"
  history :: "cairo_call list"

definition new_context :: cairo_context where
  "new_context = \<lparr>current = \<lparr>font_face = None, font_size = 10\<rparr>, saved = [], history = []\<rparr>"

definition save :: "cairo_context \<Rightarrow> cairo_context" where
  "save c = c\<lparr>saved := current c # saved c, history := history c @ [Save]\<rparr>"

definition restore :: "cairo_context \<Rightarrow> cairo_context option" where
  "restore c =
     (case saved c of
        [] \<Rightarrow> None
      | g # gs \<Rightarrow> Some (c\<lparr>current := g, saved := gs, history := history c @ [Restore]\<rparr>))"

definition select_font_face :: "string \<Rightarrow> slant \<Rightarrow> weight \<Rightarrow> cairo_context \<Rightarrow> cairo_context" where
  "select_font_face n s w c =
     c\<lparr>current := (current c)\<lparr>font_face := Some (n, s, w)\<rparr>,
       history := history c @ [Select_font_face n s w]\<rparr>"

definition set_font_size :: "real \<Rightarrow> cairo_context \<Rightarrow> cairo_context" where
  "set_font_size z c =
     c\<lparr>current := (current c)\<lparr>font_size := z\<rparr>, history := history c @ [Set_font_size z]\<rparr>"

text \<open>
  What the module reads from outside: \<open>sys.platform\<close>, the optional attribute
  \<open>config.FONT_NAME\<close> (a dict), the platform font registry, the Windows fonts directory
  and the two extent queries of the backend, which depend on the face and size selected
  in the context.
\<close>

record env =
  platform :: string
  FONT_NAME :: "(string \<rightharpoonup> string) option"
  get_font_detail :: "string \<Rightarrow> font_detail option"
  fonts_dir :: string
  font_extents :: "gstate \<Rightarrow> real \<times> real \<times> real \<times> real \<times> real"
  text_extents :: "gstate \<Rightarrow> string \<Rightarrow> real \<times> real \<times> real \<times> real \<times> real \<times> real"

text \<open>
  The attributes a Font has from line 85 on, and the Font with its metrics (line 103).
  \<open>self.cairoContext\<close> is always the one shared object \<open>Font._cairoContext\<close>, which is
  kept in the process state below.
\<close>

record Font_attrs =
  name :: string
  size_pt :: real
  isItalic :: bool
  font_name :: "string option"
  slant :: slant

record Font = Font_attrs +
  ascent :: real
  descent :: real
  height :: real
  maxXAdvance :: real
  maxYAdvance :: real

text \<open>A glyph; \<open>font\<close> is the reference to the Font object it belongs to.\<close>

record FontGlyph =
  charAsUtf8 :: string
  char :: uchar
  font :: nat
  xMin :: real
  xMax :: real
  yMin :: real
  yMax :: real
  advance :: real

type_synonym FontKey = "string \<times> real \<times> bool"

text \<open>
  The state of the process: the class attribute \<open>Font._cairoContext\<close>, the module flag
  \<open>_used_font_logged\<close>, what has been logged, the Font and FontGlyph objects (an object
  reference is an index into the list) and the tables of the two memoized methods.
\<close>

record world =
  cairoContext :: "cairo_context option"
  used_font_logged :: bool
  logging :: "log_record list"
  fonts :: "Font list"
  get_cache :: "FontKey \<rightharpoonup> nat"
  glyphs :: "FontGlyph list"
  getGlyph_cache :: "nat \<times> uchar \<rightharpoonup> nat"

definition init_world :: world where
  "init_world =
     \<lparr>cairoContext = None, used_font_logged = False, logging = [], fonts = [],
      get_cache = Map.empty, glyphs = [], getGlyph_cache = Map.empty\<rparr>"

section \<open>Helpers of the Python runtime\<close>

text \<open>\<open>not font_name\<close> holds for \<open>None\<close> and for the empty string.\<close>

definition truthy :: "string option \<Rightarrow> bool" where
  "truthy v = (case v of None \<Rightarrow> False | Some s \<Rightarrow> s \<noteq> [])"

text \<open>\<open>sys.platform.startswith("win")\<close>\<close>

definition is_win :: "env \<Rightarrow> bool" where
  "is_win e = (take 3 (platform e) = ''win'')"

text \<open>
  \<open>os.path.join(a, b)\<close> of the Windows path module, for a second part that is a plain
  file name: a separator is added unless the first part is empty or ends with a
  separator or a colon.
\<close>

definition os_path_join :: "string \<Rightarrow> string \<Rightarrow> string" where
  "os_path_join a b =
     (if a = [] then b
      else if last a \<in> {CHR ''/'', CHR 0x5C, CHR '':''} then a @ b
      else a @ [CHR 0x5C] @ b)"

text \<open>\<open>char.encode("UTF-8")\<close> of a single code point.\<close>

definition utf8_encode :: "uchar \<Rightarrow> string" where
  "utf8_encode cp =
     map char_of
       (if cp < 0x80 then [cp]
        else if cp < 0x800 then [0xC0 + cp div 64, 0x80 + cp mod 64]
        else if cp < 0x10000 then
          [0xE0 + cp div 4096, 0x80 + (cp div 64) mod 64, 0x80 + cp mod 64]
        else
          [0xF0 + cp div 262144, 0x80 + (cp div 4096) mod 64,
           0x80 + (cp div 64) mod 64, 0x80 + cp mod 64])"

text \<open>\<open>d[k]\<close> on a dict raises KeyError for a missing key.\<close>

definition dict_get :: "(string \<rightharpoonup> string) \<Rightarrow> string \<Rightarrow> error + string" where
  "dict_get d k = (case d k of None \<Rightarrow> Inl (KeyError k) | Some v \<Rightarrow> Inr v)"

section \<open>Font\<close>

definition log_msg :: "log_record \<Rightarrow> world \<Rightarrow> world" where
  "log_msg m w = w\<lparr>logging := logging w @ [m]\<rparr>"

text \<open>The nested function \<open>get_font_name\<close> of \<open>loadInto\<close> (lines 143 to 158).\<close>

definition get_font_name :: "env \<Rightarrow> string \<Rightarrow> world \<Rightarrow> string option \<times> world" where
  "get_font_name e font_id w =
     (case get_font_detail e font_id of
        Some detail \<Rightarrow>
          (Some (filepath detail),
           if \<not> used_font_logged w
           then (log_msg (Info_Font_used detail) w)\<lparr>used_font_logged := True\<rparr>
           else w)
      | None \<Rightarrow>
          (None,
           if \<not> used_font_logged w
           then (log_msg (Error_font_not_found font_id) w)\<lparr>used_font_logged := True\<rparr>
           else w))"

text \<open>
  The body of \<open>if not self.font_name\<close> on the Windows branch (lines 166 to 195): the
  value assigned to \<open>self.font_name\<close>, or the exception that leaves the method.
\<close>

definition resolve_win :: "env \<Rightarrow> bool \<Rightarrow> world \<Rightarrow> (error + string option) \<times> world" where
  "resolve_win e italic w0 =
     (let w1 = (if FONT_NAME e = None then log_msg Error_no_FONT_NAME w0 else w0);
          (r, w2) =
            (if italic then
               (case FONT_NAME e of
                  None \<Rightarrow> (Inr None, w1)
                | Some d \<Rightarrow>
                    (let (fn, w') =
                           (case d ''italic'' of
                              None \<Rightarrow> (None, w1)
                            | Some v \<Rightarrow> get_font_name e v w1)
                     in if \<not> truthy fn then
                          (case dict_get d ''normal'' of
                             Inl err \<Rightarrow> (Inl err, w')
                           | Inr v \<Rightarrow>
                               (let (fn', w'') = get_font_name e v w' in (Inr fn', w'')))
                        else (Inr fn, w')))
             else
               (case FONT_NAME e of
                  None \<Rightarrow> (Inr None, w1)
                | Some d \<Rightarrow>
                    (case d ''normal'' of
                       None \<Rightarrow> (Inr None, w1)
                     | Some v \<Rightarrow> (let (fn, w') = get_font_name e v w1 in (Inr fn, w')))))
      in case r of
           Inl err \<Rightarrow> (Inl err, w2)
         | Inr fn \<Rightarrow>
             if \<not> truthy fn then
               (Inr (Some (os_path_join (fonts_dir e) ''arial.ttf'')),
                log_msg Warning_default_Arial w2)
             else (Inr fn, w2))"

text \<open>The same body on the other platforms (lines 209 to 228).\<close>

definition resolve_other :: "env \<Rightarrow> bool \<Rightarrow> world \<Rightarrow> (error + string option) \<times> world" where
  "resolve_other e italic w0 =
     (let w1 = (if FONT_NAME e = None then log_msg Error_no_FONT_NAME w0 else w0);
          r =
            (if italic then
               (case FONT_NAME e of
                  None \<Rightarrow> Inr None
                | Some d \<Rightarrow>
                    (let fn = (case d ''italic'' of None \<Rightarrow> None | Some v \<Rightarrow> Some v)
                     in if \<not> truthy fn then
                          (case dict_get d ''normal'' of
                             Inl err \<Rightarrow> Inl err
                           | Inr v \<Rightarrow> Inr (Some v))
                        else Inr fn))
             else
               (case FONT_NAME e of
                  None \<Rightarrow> Inr None
                | Some d \<Rightarrow>
                    (case d ''normal'' of None \<Rightarrow> Inr None | Some v \<Rightarrow> Inr (Some v))))
      in case r of
           Inl err \<Rightarrow> (Inl err, w1)
         | Inr fn \<Rightarrow> if \<not> truthy fn then (Inr (Some ''Helvetica''), w1) else (Inr fn, w1))"

text \<open>The test of \<open>sys.platform\<close> (line 163) chooses between the two bodies.\<close>

definition resolve :: "env \<Rightarrow> bool \<Rightarrow> world \<Rightarrow> (error + string option) \<times> world" where
  "resolve e italic w = (if is_win e then resolve_win e italic w else resolve_other e italic w)"

text \<open>
  \<open>loadInto\<close> (lines 138 to 238). The two platform branches differ in the body of
  \<open>if not self.font_name\<close> only; the guard and the call of \<open>select_font_face\<close> that
  follows it are the same in both and are written once. The context is passed and
  returned; the Font is returned with its \<open>font_name\<close>. Selecting a face whose name is
  \<open>None\<close> is a TypeError of the backend.
\<close>

definition loadInto ::
  "env \<Rightarrow> 'a Font_attrs_scheme \<Rightarrow> cairo_context \<Rightarrow> world \<Rightarrow>
     (error + unit) \<times> 'a Font_attrs_scheme \<times> cairo_context \<times> world" where
  "loadInto e self c w =
     (let (r, self1, w1) =
            (if \<not> truthy (font_name self) then
               (case resolve e (isItalic self) w of
                  (Inl err, w') \<Rightarrow> (Inl err, self, w')
                | (Inr fn, w') \<Rightarrow> (Inr (), self\<lparr>font_name := fn\<rparr>, w'))
             else (Inr (), self, w))
      in case r of
           Inl err \<Rightarrow> (Inl err, self1, c, w1)
         | Inr _ \<Rightarrow>
             (case font_name self1 of
                None \<Rightarrow> (Inl TypeError, self1, c, w1)
              | Some n \<Rightarrow>
                  (Inr (), self1,
                   set_font_size (size_pt self1)
                     (select_font_face n (slant self1) FONT_WEIGHT_NORMAL c),
                   w1)))"

text \<open>
  \<open>Font.__init__\<close> (lines 72 to 105). An exception of \<open>loadInto\<close> leaves the constructor
  after \<open>save\<close> and before \<open>restore\<close>.
\<close>

definition Font_init :: "env \<Rightarrow> string \<Rightarrow> real \<Rightarrow> bool \<Rightarrow> world \<Rightarrow> (error + Font) \<times> world" where
  "Font_init e nm sz italic w =
     (let self = \<lparr>name = nm, size_pt = sz, isItalic = italic, font_name = None,
                  slant = (if italic then FONT_SLANT_ITALIC else FONT_SLANT_NORMAL)\<rparr>;
          c0 = (case cairoContext w of None \<Rightarrow> new_context | Some c \<Rightarrow> c);
          c1 = save c0;
          (r, self1, c2, w1) = loadInto e self c1 w
      in case r of
           Inl err \<Rightarrow> (Inl err, w1\<lparr>cairoContext := Some c2\<rparr>)
         | Inr _ \<Rightarrow>
             (let (a, d, h, mx, my) = font_extents e (current c2);
                  c3 = c2\<lparr>history := history c2 @ [Font_extents]\<rparr>
              in case restore c3 of
                   None \<Rightarrow> (Inl CairoError, w1\<lparr>cairoContext := Some c3\<rparr>)
                 | Some c4 \<Rightarrow>
                     (Inr \<lparr>name = name self1, size_pt = size_pt self1,
                           isItalic = isItalic self1, font_name = font_name self1,
                           slant = slant self1, ascent = a, descent = d, height = h,
                           maxXAdvance = mx, maxYAdvance = my\<rparr>,
                      w1\<lparr>cairoContext := Some c4\<rparr>)))"

text \<open>
  Modelled from the spec: the decorator \<open>memoized\<close> (enso.utils.memoize) is not part of
  the source files. By the spec, \<open>Font.get\<close> is a flyweight table keyed by the triple:
  a hit returns the stored object, a miss constructs the Font, stores it and returns
  it; an exception of the constructor stores nothing.
\<close>

definition Font_get :: "env \<Rightarrow> string \<Rightarrow> real \<Rightarrow> bool \<Rightarrow> world \<Rightarrow> (error + nat) \<times> world" where
  "Font_get e nm sz italic w =
     (case get_cache w (nm, sz, italic) of
        Some r \<Rightarrow> (Inr r, w)
      | None \<Rightarrow>
          (case Font_init e nm sz italic w of
             (Inl err, w') \<Rightarrow> (Inl err, w')
           | (Inr f, w') \<Rightarrow>
               (Inr (length (fonts w')),
                w'\<lparr>fonts := fonts w' @ [f],
                   get_cache := (get_cache w')((nm, sz, italic) \<mapsto> length (fonts w'))\<rparr>)))"

text \<open>\<open>getKerningDistance\<close> (lines 128 to 136).\<close>

definition getKerningDistance :: "Font \<Rightarrow> uchar \<Rightarrow> uchar \<Rightarrow> real" where
  "getKerningDistance self charLeft charRight = 0"

section \<open>FontGlyph\<close>

text \<open>
  \<open>FontGlyph.__init__\<close> (lines 251 to 287), called with the context of the Font.
  Calling \<open>save\<close> on \<open>None\<close> is an AttributeError.
\<close>

definition FontGlyph_init :: "env \<Rightarrow> uchar \<Rightarrow> nat \<Rightarrow> world \<Rightarrow> (error + FontGlyph) \<times> world" where
  "FontGlyph_init e ch f w =
     (if \<not> f < length (fonts w) then (Inl No_such_object, w)
      else
        (case cairoContext w of
           None \<Rightarrow> (Inl AttributeError, w)
         | Some c0 \<Rightarrow>
             (let c1 = save c0;
                  (r, self1, c2, w1) = loadInto e (fonts w ! f) c1 w;
                  w2 = w1\<lparr>fonts := (fonts w1)[f := self1]\<rparr>
              in case r of
                   Inl err \<Rightarrow> (Inl err, w2\<lparr>cairoContext := Some c2\<rparr>)
                 | Inr _ \<Rightarrow>
                     (let (xBearing, yBearing, width, height, xAdvance, yAdvance) =
                            text_extents e (current c2) (utf8_encode ch);
                          c3 = c2\<lparr>history := history c2 @ [Text_extents (utf8_encode ch)]\<rparr>
                      in case restore c3 of
                           None \<Rightarrow> (Inl CairoError, w2\<lparr>cairoContext := Some c3\<rparr>)
                         | Some c4 \<Rightarrow>
                             (Inr \<lparr>charAsUtf8 = utf8_encode ch, char = ch, font = f,
                                   xMin = xBearing, xMax = xBearing + width,
                                   yMin = - yBearing + height, yMax = - yBearing,
                                   advance = xAdvance\<rparr>,
                              w2\<lparr>cairoContext := Some c4\<rparr>)))))"

text \<open>
  Modelled from the spec: \<open>getGlyph\<close> is memoized per Font instance and character, by
  the same decorator.
\<close>

definition getGlyph :: "env \<Rightarrow> nat \<Rightarrow> uchar \<Rightarrow> world \<Rightarrow> (error + nat) \<times> world" where
  "getGlyph e self ch w =
     (case getGlyph_cache w (self, ch) of
        Some g \<Rightarrow> (Inr g, w)
      | None \<Rightarrow>
          (case FontGlyph_init e ch self w of
             (Inl err, w') \<Rightarrow> (Inl err, w')
           | (Inr g, w') \<Rightarrow>
               (Inr (length (glyphs w')),
                w'\<lparr>glyphs := glyphs w' @ [g],
                   getGlyph_cache := (getGlyph_cache w')((self, ch) \<mapsto> length (glyphs w'))\<rparr>)))"

section \<open>Sequences of calls\<close>

datatype call = Get string real bool | GetGlyph nat uchar

fun exec :: "env \<Rightarrow> call \<Rightarrow> world \<Rightarrow> world" where
  "exec e (Get nm sz italic) w = snd (Font_get e nm sz italic w)"
| "exec e (GetGlyph f ch) w = snd (getGlyph e f ch w)"

fun run :: "env \<Rightarrow> call list \<Rightarrow> world \<Rightarrow> world" where
  "run e [] w = w"
| "run e (c # cs) w = run e cs (exec e c w)"

section \<open>Concrete environments\<close>

text \<open>
  An environment for evaluation: the platform and the setting are given; the registry
  knows the font Consolas only; the backend answers every extent query with the same
  box, ten units tall and eight wide, standing on the baseline.
\<close>

definition example_env :: "string \<Rightarrow> (string \<rightharpoonup> string) option \<Rightarrow> env" where
  "example_env p fn =
     \<lparr>platform = p, FONT_NAME = fn,
      get_font_detail =
        (\<lambda>i. if i = ''Consolas'' then Some \<lparr>filepath = ''C:/Windows/Fonts/consola.ttf''\<rparr>
             else None),
      fonts_dir = ''C:/Windows/Fonts'',
      font_extents = (\<lambda>g. (10, 3, 13, 12, 0)),
      text_extents = (\<lambda>g s. (0, - 10, 8, 10, 9, 0))\<rparr>"

text \<open>
  Two more settings and the states used for evaluation: the process after the first
  request of a font with no setting, and after the glyph of the letter A has been asked
  of that font.
\<close>

definition empty_setting :: "string \<rightharpoonup> string" where
  "empty_setting = Map.empty"

definition only_normal :: "string \<rightharpoonup> string" where
  "only_normal = [''normal'' \<mapsto> ''Consolas'']"

definition unset_env :: env where
  "unset_env = example_env ''linux2'' None"

definition sans_loaded :: world where
  "sans_loaded = run unset_env [Get ''sans'' 12 False] init_world"

definition glyph_A :: FontGlyph where
  "glyph_A = \<lparr>charAsUtf8 = ''A'', char = 65, font = 0, xMin = 0, xMax = 8,
                yMin = 20, yMax = 10, advance = 9\<rparr>"

definition A_loaded :: world where
  "A_loaded = run unset_env [GetGlyph 0 65] sans_loaded"

text \<open>
  A backend whose character extents depend on the selected size: at size 12 the box of
  the other environments, at every other size a box of negative width and advance.
\<close>

definition sized_env :: env where
  "sized_env =
     unset_env\<lparr>text_extents :=
       (\<lambda>g s. if font_size g = 12 then (0, - 10, 8, 10, 9, 0) else (0, - 10, - 8, 10, - 9, 0))\<rparr>"

section \<open>Observations and invariants\<close>

text \<open>
  The shared context as a caller sees it: before the first Font is built there is none,
  and the constructor starts from a new one.
\<close>

definition context_of :: "world \<Rightarrow> cairo_context" where
  "context_of w = (case cairoContext w of None \<Rightarrow> new_context | Some c \<Rightarrow> c)"

text \<open>
  \<open>same_objects\<close>: nothing but the log and the flag differs. \<open>caches_ok\<close>: the two
  memo tables hold references to existing objects, no reference twice. \<open>heap_ok\<close>:
  every Font has its identifier, and the context exists once a Font does.
\<close>

definition same_objects :: "world \<Rightarrow> world \<Rightarrow> bool" where
  "same_objects w w' \<longleftrightarrow>
     cairoContext w' = cairoContext w \<and> fonts w' = fonts w \<and> get_cache w' = get_cache w \<and>
     glyphs w' = glyphs w \<and> getGlyph_cache w' = getGlyph_cache w"

definition caches_ok :: "world \<Rightarrow> bool" where
  "caches_ok w \<longleftrightarrow>
     (\<forall>k r. get_cache w k = Some r \<longrightarrow> r < length (fonts w)) \<and>
     (\<forall>k k' r. get_cache w k = Some r \<longrightarrow> get_cache w k' = Some r \<longrightarrow> k = k') \<and>
     (\<forall>k g. getGlyph_cache w k = Some g \<longrightarrow> g < length (glyphs w)) \<and>
     (\<forall>k k' g. getGlyph_cache w k = Some g \<longrightarrow> getGlyph_cache w k' = Some g \<longrightarrow> k = k')"

definition heap_ok :: "world \<Rightarrow> bool" where
  "heap_ok w \<longleftrightarrow>
     (\<forall>f \<in> set (fonts w). truthy (font_name f)) \<and> (fonts w \<noteq> [] \<longrightarrow> cairoContext w \<noteq> None)"

text \<open>
  What a newly built Font logs when there is no setting, and a list of requests as calls.
\<close>

definition missing_setting_messages :: "env \<Rightarrow> log_record list" where
  "missing_setting_messages e =
     (if is_win e then [Error_no_FONT_NAME, Warning_default_Arial] else [Error_no_FONT_NAME])"

definition get_calls :: "FontKey list \<Rightarrow> call list" where
  "get_calls ks = map (\<lambda>(n, z, i). Get n z i) ks"

section \<open>Properties of the operations\<close>

lemmas eval_defs =
  Font_get_def Font_init_def loadInto_def resolve_def resolve_other_def resolve_win_def
  get_font_name_def getGlyph_def FontGlyph_init_def example_env_def init_world_def is_win_def
  dict_get_def log_msg_def save_def restore_def select_font_face_def set_font_size_def
  new_context_def os_path_join_def utf8_encode_def empty_setting_def only_normal_def Let_def

lemma truthy_simps [simp]: "truthy None = False" "truthy (Some s) = (s \<noteq> [])"
  by (simp_all add: truthy_def)

lemma os_path_join_nonempty: "b \<noteq> [] \<Longrightarrow> os_path_join a b \<noteq> []"
  by (simp add: os_path_join_def)

lemma char_of_65: "char_of (65::nat) = CHR ''A''"
  by code_simp

lemma gstate_overwritten:
  "(g::gstate)\<lparr>font_face := a, font_size := b\<rparr> = \<lparr>font_face = a, font_size = b\<rparr>"
  by (cases g) simp

subsection \<open>Resolution of the identifier\<close>

lemma same_objects_refl: "same_objects w w"
  by (simp add: same_objects_def)

lemma same_objects_log_msg: "same_objects w w1 \<Longrightarrow> same_objects w (log_msg m w1)"
  by (simp add: same_objects_def log_msg_def)

lemma same_objects_get_font_name:
  "same_objects w w1 \<Longrightarrow> same_objects w (snd (get_font_name e i w1))"
  by (simp add: get_font_name_def same_objects_def log_msg_def split: option.splits)

lemmas same_objects_intros = same_objects_refl same_objects_log_msg same_objects_get_font_name

lemma resolve_other_frame: "same_objects w (snd (resolve_other e i w))"
  by (simp add: resolve_other_def Let_def same_objects_intros split: option.split sum.split)

lemma resolve_win_frame: "same_objects w (snd (resolve_win e i w))"
  by (simp add: resolve_win_def Let_def case_prod_beta same_objects_intros
      split: option.split sum.split)

lemma resolve_other_result:
  "case fst (resolve_other e i w) of Inl err \<Rightarrow> True | Inr fn \<Rightarrow> truthy fn"
  by (simp add: resolve_other_def Let_def dict_get_def split: option.split sum.split)

lemma resolve_win_result:
  "case fst (resolve_win e i w) of Inl err \<Rightarrow> True | Inr fn \<Rightarrow> truthy fn"
  by (simp add: resolve_win_def Let_def dict_get_def case_prod_beta os_path_join_nonempty
      split: option.split sum.split)

lemma resolve_frame: "same_objects w (snd (resolve e i w))"
  by (simp add: resolve_def resolve_win_frame resolve_other_frame)

lemma resolve_result: "case fst (resolve e i w) of Inl err \<Rightarrow> True | Inr fn \<Rightarrow> truthy fn"
  by (simp add: resolve_def resolve_win_result resolve_other_result)

lemma resolve_Inr_truthy: "resolve e i w = (Inr fn, w') \<Longrightarrow> truthy fn"
  using resolve_result[of e i w] by simp

lemma resolve_error_cases:
  "case fst (resolve e i w) of
     Inl err \<Rightarrow> err = KeyError ''normal'' \<and> i \<and> (\<exists>d. FONT_NAME e = Some d \<and> d ''normal'' = None)
   | Inr fn \<Rightarrow> True"
  by (simp add: resolve_def resolve_win_def resolve_other_def dict_get_def case_prod_beta
      Let_def split: option.split sum.split)

lemma resolve_error:
  assumes "fst (resolve e i w) = Inl err"
  shows "err = KeyError ''normal'' \<and> i \<and> (\<exists>d. FONT_NAME e = Some d \<and> d ''normal'' = None)"
  using resolve_error_cases[where e=e and i=i and w=w] assms by simp

lemma resolve_unset:
  assumes "FONT_NAME e = None"
  shows "\<exists>s. resolve e i w = (Inr (Some s), w\<lparr>logging := logging w @ missing_setting_messages e\<rparr>)"
  using assms
  by (simp add: resolve_def resolve_win_def resolve_other_def missing_setting_messages_def
      log_msg_def)

lemma resolve_only_normal:
  assumes "FONT_NAME e = Some d" and "d ''italic'' = None" and "d ''normal'' = Some v"
  shows "fst (resolve e i w) =
     Inr (Some (if is_win e then
                  (case get_font_detail e v of
                     None \<Rightarrow> os_path_join (fonts_dir e) ''arial.ttf''
                   | Some detail \<Rightarrow>
                       if filepath detail = [] then os_path_join (fonts_dir e) ''arial.ttf''
                       else filepath detail)
                else if v = [] then ''Helvetica'' else v))"
  using assms
  by (simp add: resolve_def resolve_win_def resolve_other_def dict_get_def get_font_name_def
      split: option.split)

subsection \<open>loadInto and the constructors\<close>

lemma loadInto_stored:
  "truthy (font_name self) \<Longrightarrow>
   loadInto e self c w =
     (Inr (), self,
      set_font_size (size_pt self)
        (select_font_face (the (font_name self)) (slant self) FONT_WEIGHT_NORMAL c), w)"
  by (cases "font_name self") (simp_all add: loadInto_def)

lemma loadInto_fresh:
  "\<not> truthy (font_name self) \<Longrightarrow>
   loadInto e self c w =
     (case resolve e (isItalic self) w of
        (Inl err, w') \<Rightarrow> (Inl err, self, c, w')
      | (Inr fn, w') \<Rightarrow>
          (Inr (), self\<lparr>font_name := fn\<rparr>,
           set_font_size (size_pt self)
             (select_font_face (the fn) (slant self) FONT_WEIGHT_NORMAL c), w'))"
proof -
  assume f: "\<not> truthy (font_name self)"
  obtain r w1 where l: "resolve e (isItalic self) w = (r, w1)"
    by (cases "resolve e (isItalic self) w") auto
  show ?thesis
  proof (cases r)
    case (Inl err)
    with f l show ?thesis by (simp add: loadInto_def)
  next
    case (Inr fn)
    with l have "truthy fn" by (simp add: resolve_Inr_truthy)
    then obtain s where "fn = Some s" by (cases fn) simp_all
    with f l Inr show ?thesis by (simp add: loadInto_def)
  qed
qed

lemma loadInto_frame: "same_objects w (snd (snd (snd (loadInto e self c w))))"
proof (cases "truthy (font_name self)")
  case True
  then show ?thesis by (simp add: loadInto_stored same_objects_refl)
next
  case False
  with resolve_frame[of w e "isItalic self"] show ?thesis
    by (cases "resolve e (isItalic self) w") (auto simp: loadInto_fresh split: sum.splits)
qed

lemma loadInto_result:
  "case loadInto e self c w of
     (Inl err, self', c', w') \<Rightarrow> self' = self \<and> c' = c
   | (Inr u, self', c', w') \<Rightarrow>
       truthy (font_name self') \<and> self' = self\<lparr>font_name := font_name self'\<rparr> \<and>
       c' = set_font_size (size_pt self)
              (select_font_face (the (font_name self')) (slant self) FONT_WEIGHT_NORMAL c)"
proof (cases "truthy (font_name self)")
  case True
  then show ?thesis by (simp add: loadInto_stored)
next
  case False
  with resolve_result[of e "isItalic self" w] show ?thesis
    by (cases "resolve e (isItalic self) w") (auto simp: loadInto_fresh split: sum.splits)
qed

lemma Font_init_frame:
  "fonts (snd (Font_init e n z i w)) = fonts w \<and>
   get_cache (snd (Font_init e n z i w)) = get_cache w \<and>
   glyphs (snd (Font_init e n z i w)) = glyphs w \<and>
   getGlyph_cache (snd (Font_init e n z i w)) = getGlyph_cache w \<and>
   cairoContext (snd (Font_init e n z i w)) \<noteq> None"
proof -
  let ?self = "\<lparr>name = n, size_pt = z, isItalic = i, font_name = None,
                slant = (if i then FONT_SLANT_ITALIC else FONT_SLANT_NORMAL)\<rparr>"
  let ?c1 = "save (case cairoContext w of None \<Rightarrow> new_context | Some c \<Rightarrow> c)"
  obtain r self1 c2 w1 where l: "loadInto e ?self ?c1 w = (r, self1, c2, w1)"
    by (cases "loadInto e ?self ?c1 w") auto
  from loadInto_frame[of w e ?self ?c1] l have "same_objects w w1" by simp
  with l show ?thesis
    by (cases r; cases "restore (c2\<lparr>history := history c2 @ [Font_extents]\<rparr>)")
       (simp_all add: Font_init_def Let_def case_prod_beta same_objects_def)
qed

lemma Font_init_result:
  assumes "Font_init e n z i w = (Inr f, w')"
  shows "truthy (font_name f) \<and> name f = n \<and> size_pt f = z \<and> isItalic f = i \<and>
         slant f = (if i then FONT_SLANT_ITALIC else FONT_SLANT_NORMAL) \<and>
         current (context_of w') = current (context_of w) \<and>
         saved (context_of w') = saved (context_of w) \<and>
         history (context_of w') =
           history (context_of w) @
             [Save, Select_font_face (the (font_name f)) (slant f) FONT_WEIGHT_NORMAL,
              Set_font_size z, Font_extents, Restore]"
proof -
  let ?self = "\<lparr>name = n, size_pt = z, isItalic = i, font_name = None,
                slant = (if i then FONT_SLANT_ITALIC else FONT_SLANT_NORMAL)\<rparr>"
  let ?c1 = "save (case cairoContext w of None \<Rightarrow> new_context | Some c \<Rightarrow> c)"
  obtain r self1 c2 w1 where l: "loadInto e ?self ?c1 w = (r, self1, c2, w1)"
    by (cases "loadInto e ?self ?c1 w") auto
  from assms l obtain u where r: "r = Inr u"
    by (cases r) (simp_all add: Font_init_def Let_def)
  from loadInto_result[where e=e and self="?self" and c="?c1" and w=w] l r
  have t: "truthy (font_name self1)"
    and s: "self1 = ?self\<lparr>font_name := font_name self1\<rparr>"
    and c: "c2 = set_font_size z
                  (select_font_face (the (font_name self1)) (slant ?self) FONT_WEIGHT_NORMAL ?c1)"
    by simp_all
  have f1: "name self1 = n" "size_pt self1 = z" "isItalic self1 = i"
       "slant self1 = (if i then FONT_SLANT_ITALIC else FONT_SLANT_NORMAL)"
    by (subst s, simp)+
  from assms l r c f1 t show ?thesis
    by (auto simp: Font_init_def Let_def case_prod_beta context_of_def restore_def save_def
        set_font_size_def select_font_face_def split: option.splits)
qed

lemma Font_init_resolve:
  "Font_init e n z i w =
     (case resolve e i w of
        (Inl err, w1) \<Rightarrow> (Inl err, w1\<lparr>cairoContext := Some (save (context_of w))\<rparr>)
      | (Inr fn, w1) \<Rightarrow>
          (case font_extents e
                  \<lparr>font_face = Some (the fn, if i then FONT_SLANT_ITALIC else FONT_SLANT_NORMAL,
                                     FONT_WEIGHT_NORMAL), font_size = z\<rparr> of
             (a, d, h, mx, my) \<Rightarrow>
               (Inr \<lparr>name = n, size_pt = z, isItalic = i, font_name = fn,
                     slant = (if i then FONT_SLANT_ITALIC else FONT_SLANT_NORMAL),
                     ascent = a, descent = d, height = h, maxXAdvance = mx, maxYAdvance = my\<rparr>,
                w1\<lparr>cairoContext := Some ((context_of w)\<lparr>history := history (context_of w) @
                     [Save,
                      Select_font_face (the fn)
                        (if i then FONT_SLANT_ITALIC else FONT_SLANT_NORMAL) FONT_WEIGHT_NORMAL,
                      Set_font_size z, Font_extents, Restore]\<rparr>)\<rparr>)))"
proof -
  obtain r w1 where l: "resolve e i w = (r, w1)" by (cases "resolve e i w") auto
  show ?thesis
  proof (cases r)
    case (Inl err)
    with l show ?thesis
      by (simp add: Font_init_def loadInto_fresh Let_def context_of_def)
  next
    case (Inr fn)
    with l show ?thesis
      by (simp add: Font_init_def loadInto_fresh Let_def context_of_def case_prod_beta
          restore_def save_def set_font_size_def select_font_face_def gstate_overwritten)
  qed
qed

lemma FontGlyph_init_frame:
  "get_cache (snd (FontGlyph_init e ch f w)) = get_cache w \<and>
   glyphs (snd (FontGlyph_init e ch f w)) = glyphs w \<and>
   getGlyph_cache (snd (FontGlyph_init e ch f w)) = getGlyph_cache w \<and>
   length (fonts (snd (FontGlyph_init e ch f w))) = length (fonts w) \<and>
   (cairoContext w \<noteq> None \<longrightarrow> cairoContext (snd (FontGlyph_init e ch f w)) \<noteq> None)"
proof (cases "f < length (fonts w)")
  case False
  then show ?thesis by (simp add: FontGlyph_init_def)
next
  case valid: True
  show ?thesis
  proof (cases "cairoContext w")
    case None
    with valid show ?thesis by (simp add: FontGlyph_init_def)
  next
    case (Some c0)
    obtain r self1 c2 w1 where l: "loadInto e (fonts w ! f) (save c0) w = (r, self1, c2, w1)"
      by (cases "loadInto e (fonts w ! f) (save c0) w") auto
    from loadInto_frame[of w e "fonts w ! f" "save c0"] l have "same_objects w w1" by simp
    with valid Some l show ?thesis
      by (cases r;
          cases "restore (c2\<lparr>history := history c2 @ [Text_extents (utf8_encode ch)]\<rparr>)")
         (simp_all add: FontGlyph_init_def Let_def case_prod_beta same_objects_def)
  qed
qed

lemma FontGlyph_init_stored:
  assumes "f < length (fonts w)" and "truthy (font_name (fonts w ! f))"
    and "cairoContext w = Some c"
  shows "FontGlyph_init e ch f w =
     (case text_extents e
             \<lparr>font_face = Some (the (font_name (fonts w ! f)), slant (fonts w ! f),
                                FONT_WEIGHT_NORMAL),
              font_size = size_pt (fonts w ! f)\<rparr> (utf8_encode ch) of
        (xb, yb, wd, ht, xa, ya) \<Rightarrow>
          (Inr \<lparr>charAsUtf8 = utf8_encode ch, char = ch, font = f,
                xMin = xb, xMax = xb + wd, yMin = - yb + ht, yMax = - yb, advance = xa\<rparr>,
           w\<lparr>cairoContext :=
               Some (c\<lparr>history := history c @
                  [Save,
                   Select_font_face (the (font_name (fonts w ! f))) (slant (fonts w ! f))
                     FONT_WEIGHT_NORMAL,
                   Set_font_size (size_pt (fonts w ! f)),
                   Text_extents (utf8_encode ch), Restore]\<rparr>)\<rparr>))"
  using assms
  by (simp add: FontGlyph_init_def loadInto_stored Let_def case_prod_beta restore_def save_def
      set_font_size_def select_font_face_def gstate_overwritten)

lemma FontGlyph_init_result:
  assumes "FontGlyph_init e ch f w = (Inr g, w')"
  shows "charAsUtf8 g = utf8_encode ch \<and> char g = ch \<and> font g = f \<and>
         f < length (fonts w') \<and>
         (case text_extents e
                 \<lparr>font_face = Some (the (font_name (fonts w' ! f)), slant (fonts w' ! f),
                                    FONT_WEIGHT_NORMAL),
                  font_size = size_pt (fonts w' ! f)\<rparr> (utf8_encode ch) of
            (xb, yb, wd, ht, xa, ya) \<Rightarrow>
              xMin g = xb \<and> xMax g = xb + wd \<and>
              yMin g = - yb + ht \<and> yMax g = - yb \<and> advance g = xa) \<and>
         current (context_of w') = current (context_of w) \<and>
         saved (context_of w') = saved (context_of w) \<and>
         history (context_of w') =
           history (context_of w) @
             [Save,
              Select_font_face (the (font_name (fonts w' ! f))) (slant (fonts w' ! f))
                FONT_WEIGHT_NORMAL,
              Set_font_size (size_pt (fonts w' ! f)), Text_extents (utf8_encode ch), Restore]"
proof -
  from assms have valid: "f < length (fonts w)"
    by (auto simp: FontGlyph_init_def split: if_splits)
  from assms valid obtain c0 where c0: "cairoContext w = Some c0"
    by (cases "cairoContext w") (simp_all add: FontGlyph_init_def)
  obtain r self1 c2 w1 where l: "loadInto e (fonts w ! f) (save c0) w = (r, self1, c2, w1)"
    by (cases "loadInto e (fonts w ! f) (save c0) w") auto
  from assms valid c0 l obtain u where r: "r = Inr u"
    by (cases r) (simp_all add: FontGlyph_init_def Let_def)
  from loadInto_frame[of w e "fonts w ! f" "save c0"] l have so: "same_objects w w1" by simp
  from loadInto_result[where e=e and self="fonts w ! f" and c="save c0" and w=w] l r
  have s: "self1 = (fonts w ! f)\<lparr>font_name := font_name self1\<rparr>"
    and c: "c2 = set_font_size (size_pt (fonts w ! f))
                  (select_font_face (the (font_name self1)) (slant (fonts w ! f))
                     FONT_WEIGHT_NORMAL (save c0))"
    by simp_all
  have f1: "size_pt self1 = size_pt (fonts w ! f)" "slant self1 = slant (fonts w ! f)"
    by (subst s, simp)+
  from so valid have valid1: "f < length (fonts w1)" by (simp add: same_objects_def)
  from assms valid valid1 c0 l r c f1 so show ?thesis
    by (auto simp: FontGlyph_init_def Let_def case_prod_beta context_of_def restore_def
        save_def set_font_size_def select_font_face_def same_objects_def gstate_overwritten
        split: option.splits)
qed

lemma FontGlyph_yMin_yMax:
  assumes "FontGlyph_init e ch f w = (Inr g, w')"
  shows "\<exists>gs. case text_extents e gs (utf8_encode ch) of
                 (xb, yb, wd, ht, xa, ya) \<Rightarrow> yMin g = yMax g + ht"
proof -
  let ?gs = "\<lparr>font_face = Some (the (font_name (fonts w' ! f)), slant (fonts w' ! f),
                                 FONT_WEIGHT_NORMAL),
               font_size = size_pt (fonts w' ! f)\<rparr>"
  from FontGlyph_init_result[OF assms]
  have "case text_extents e ?gs (utf8_encode ch) of
          (xb, yb, wd, ht, xa, ya) \<Rightarrow> yMin g = yMax g + ht"
    by (auto split: prod.splits)
  then show ?thesis ..
qed

lemma context_of_simps [simp]:
  "context_of (w\<lparr>fonts := fs\<rparr>) = context_of w"
  "context_of (w\<lparr>get_cache := gc\<rparr>) = context_of w"
  "context_of (w\<lparr>glyphs := gl\<rparr>) = context_of w"
  "context_of (w\<lparr>getGlyph_cache := ggc\<rparr>) = context_of w"
  by (simp_all add: context_of_def)

subsection \<open>The memo tables\<close>

lemma caches_ok_init: "caches_ok init_world"
  by (simp add: caches_ok_def init_world_def)

lemma Font_get_hit: "get_cache w (n, z, i) = Some r \<Longrightarrow> Font_get e n z i w = (Inr r, w)"
  by (simp add: Font_get_def)

lemma Font_get_miss:
  "get_cache w (n, z, i) = None \<Longrightarrow>
   Font_get e n z i w =
     (case Font_init e n z i w of
        (Inl err, w') \<Rightarrow> (Inl err, w')
      | (Inr f, w') \<Rightarrow>
          (Inr (length (fonts w)),
           w'\<lparr>fonts := fonts w @ [f], get_cache := (get_cache w)((n, z, i) \<mapsto> length (fonts w))\<rparr>))"
  using Font_init_frame[of e n z i w]
  by (cases "Font_init e n z i w") (auto simp: Font_get_def split: sum.splits)

lemma getGlyph_hit: "getGlyph_cache w (f, ch) = Some g \<Longrightarrow> getGlyph e f ch w = (Inr g, w)"
  by (simp add: getGlyph_def)

lemma getGlyph_miss:
  "getGlyph_cache w (f, ch) = None \<Longrightarrow>
   getGlyph e f ch w =
     (case FontGlyph_init e ch f w of
        (Inl err, w') \<Rightarrow> (Inl err, w')
      | (Inr g, w') \<Rightarrow>
          (Inr (length (glyphs w)),
           w'\<lparr>glyphs := glyphs w @ [g],
              getGlyph_cache := (getGlyph_cache w)((f, ch) \<mapsto> length (glyphs w))\<rparr>))"
  using FontGlyph_init_frame[of e ch f w]
  by (cases "FontGlyph_init e ch f w") (auto simp: getGlyph_def split: sum.splits)

lemma Font_get_caches_ok:
  assumes "caches_ok w" shows "caches_ok (snd (Font_get e n z i w))"
proof (cases "get_cache w (n, z, i)")
  case (Some r)
  with assms show ?thesis by (simp add: Font_get_hit)
next
  case None
  obtain r w1 where fi: "Font_init e n z i w = (r, w1)" by (cases "Font_init e n z i w") auto
  with Font_init_frame[of e n z i w]
  have fr: "fonts w1 = fonts w" "get_cache w1 = get_cache w" "glyphs w1 = glyphs w"
    "getGlyph_cache w1 = getGlyph_cache w" by simp_all
  show ?thesis
  proof (cases r)
    case (Inl err)
    with None fi fr assms show ?thesis by (simp add: Font_get_miss caches_ok_def)
  next
    case (Inr f)
    from assms have lt: "\<And>k r. get_cache w k = Some r \<Longrightarrow> r < length (fonts w)"
      unfolding caches_ok_def by blast
    from Inr None fi fr assms show ?thesis
      by (auto simp: Font_get_miss caches_ok_def less_Suc_eq dest: lt)
  qed
qed

lemma getGlyph_caches_ok:
  assumes "caches_ok w" shows "caches_ok (snd (getGlyph e f ch w))"
proof (cases "getGlyph_cache w (f, ch)")
  case (Some r)
  with assms show ?thesis by (simp add: getGlyph_hit)
next
  case None
  obtain r w1 where fi: "FontGlyph_init e ch f w = (r, w1)"
    by (cases "FontGlyph_init e ch f w") auto
  with FontGlyph_init_frame[of e ch f w]
  have fr: "length (fonts w1) = length (fonts w)" "get_cache w1 = get_cache w"
    "glyphs w1 = glyphs w" "getGlyph_cache w1 = getGlyph_cache w" by simp_all
  show ?thesis
  proof (cases r)
    case (Inl err)
    with None fi fr assms show ?thesis by (simp add: getGlyph_miss caches_ok_def)
  next
    case (Inr g)
    from assms have lt: "\<And>k r. getGlyph_cache w k = Some r \<Longrightarrow> r < length (glyphs w)"
      unfolding caches_ok_def by blast
    from Inr None fi fr assms show ?thesis
      by (auto simp: getGlyph_miss caches_ok_def less_Suc_eq dest: lt)
  qed
qed

lemma exec_caches_ok: "caches_ok w \<Longrightarrow> caches_ok (exec e c w)"
  by (cases c) (simp_all add: Font_get_caches_ok getGlyph_caches_ok)

lemma run_caches_ok: "caches_ok w \<Longrightarrow> caches_ok (run e cs w)"
  by (induction cs arbitrary: w) (simp_all add: exec_caches_ok)

lemma Font_get_cached:
  assumes "Font_get e n z i w = (Inr r, w')" shows "get_cache w' (n, z, i) = Some r"
proof (cases "get_cache w (n, z, i)")
  case (Some r')
  with assms show ?thesis by (simp add: Font_get_hit)
next
  case None
  with assms show ?thesis
    by (cases "Font_init e n z i w") (auto simp: Font_get_miss split: sum.splits)
qed

lemma getGlyph_cached:
  assumes "getGlyph e f ch w = (Inr g, w')" shows "getGlyph_cache w' (f, ch) = Some g"
proof (cases "getGlyph_cache w (f, ch)")
  case (Some r')
  with assms show ?thesis by (simp add: getGlyph_hit)
next
  case None
  with assms show ?thesis
    by (cases "FontGlyph_init e ch f w") (auto simp: getGlyph_miss split: sum.splits)
qed

lemma Font_get_keeps:
  assumes c: "get_cache w k = Some r"
  shows "get_cache (snd (Font_get e n z i w)) k = Some r"
proof (cases "get_cache w (n, z, i)")
  case (Some r')
  with c show ?thesis by (simp add: Font_get_hit)
next
  case None
  with c have "k \<noteq> (n, z, i)" by auto
  with None c Font_init_frame[of e n z i w] show ?thesis
    by (cases "Font_init e n z i w") (auto simp: Font_get_miss split: sum.splits)
qed

lemma Font_get_keeps_glyphs:
  "getGlyph_cache (snd (Font_get e n z i w)) = getGlyph_cache w"
  using Font_init_frame[of e n z i w]
  by (cases "get_cache w (n, z, i)"; cases "Font_init e n z i w")
     (auto simp: Font_get_hit Font_get_miss split: sum.splits)

lemma getGlyph_keeps:
  assumes c: "getGlyph_cache w k = Some g"
  shows "getGlyph_cache (snd (getGlyph e f ch w)) k = Some g"
proof (cases "getGlyph_cache w (f, ch)")
  case (Some r')
  with c show ?thesis by (simp add: getGlyph_hit)
next
  case None
  with c have "k \<noteq> (f, ch)" by auto
  with None c FontGlyph_init_frame[of e ch f w] show ?thesis
    by (cases "FontGlyph_init e ch f w") (auto simp: getGlyph_miss split: sum.splits)
qed

lemma getGlyph_keeps_fonts:
  "get_cache (snd (getGlyph e f ch w)) = get_cache w"
  using FontGlyph_init_frame[of e ch f w]
  by (cases "getGlyph_cache w (f, ch)"; cases "FontGlyph_init e ch f w")
     (auto simp: getGlyph_hit getGlyph_miss split: sum.splits)

lemma run_keeps_fonts: "get_cache w k = Some r \<Longrightarrow> get_cache (run e cs w) k = Some r"
proof (induction cs arbitrary: w)
  case Nil
  then show ?case by simp
next
  case (Cons c cs)
  from Cons.prems have "get_cache (exec e c w) k = Some r"
    by (cases c) (simp_all add: Font_get_keeps getGlyph_keeps_fonts)
  then show ?case by (simp add: Cons.IH)
qed

lemma run_keeps_glyphs:
  "getGlyph_cache w k = Some g \<Longrightarrow> getGlyph_cache (run e cs w) k = Some g"
proof (induction cs arbitrary: w)
  case Nil
  then show ?case by simp
next
  case (Cons c cs)
  from Cons.prems have "getGlyph_cache (exec e c w) k = Some g"
    by (cases c) (simp_all add: getGlyph_keeps Font_get_keeps_glyphs)
  then show ?case by (simp add: Cons.IH)
qed

lemma Font_get_other_key:
  assumes ok: "caches_ok w" and c: "get_cache w k = Some r"
    and g: "Font_get e n z i w = (Inr r', w')" and ne: "(n, z, i) \<noteq> k"
  shows "r' \<noteq> r"
proof (cases "get_cache w (n, z, i)")
  case (Some q)
  with g have "r' = q" by (simp add: Font_get_hit)
  with Some c ne ok show ?thesis unfolding caches_ok_def by blast
next
  case None
  with g have "r' = length (fonts w)"
    by (cases "Font_init e n z i w") (auto simp: Font_get_miss split: sum.splits)
  moreover from ok c have "r < length (fonts w)" unfolding caches_ok_def by blast
  ultimately show ?thesis by simp
qed

lemma getGlyph_other_key:
  assumes ok: "caches_ok w" and c: "getGlyph_cache w k = Some r"
    and g: "getGlyph e f ch w = (Inr r', w')" and ne: "(f, ch) \<noteq> k"
  shows "r' \<noteq> r"
proof (cases "getGlyph_cache w (f, ch)")
  case (Some q)
  with g have "r' = q" by (simp add: getGlyph_hit)
  with Some c ne ok show ?thesis unfolding caches_ok_def by blast
next
  case None
  with g have "r' = length (glyphs w)"
    by (cases "FontGlyph_init e ch f w") (auto simp: getGlyph_miss split: sum.splits)
  moreover from ok c have "r < length (glyphs w)" unfolding caches_ok_def by blast
  ultimately show ?thesis by simp
qed

subsection \<open>Requests that return\<close>

lemma heap_ok_init: "heap_ok init_world"
  by (simp add: heap_ok_def init_world_def)

lemma Font_get_heap_ok:
  assumes "heap_ok w" shows "heap_ok (snd (Font_get e n z i w))"
proof (cases "get_cache w (n, z, i)")
  case (Some r)
  with assms show ?thesis by (simp add: Font_get_hit)
next
  case None
  obtain x w1 where fi: "Font_init e n z i w = (x, w1)" by (cases "Font_init e n z i w") auto
  with Font_init_frame[of e n z i w]
  have fr: "fonts w1 = fonts w" "cairoContext w1 \<noteq> None" by simp_all
  show ?thesis
  proof (cases x)
    case (Inl err)
    with None fi fr assms show ?thesis by (simp add: Font_get_miss heap_ok_def)
  next
    case (Inr f)
    with fi Font_init_result[of e n z i w f w1] have "truthy (font_name f)" by simp
    with Inr None fi fr assms show ?thesis by (simp add: Font_get_miss heap_ok_def)
  qed
qed

lemma getGlyph_stored:
  assumes ok: "heap_ok w" and valid: "f < length (fonts w)"
  shows "\<exists>g w'. getGlyph e f ch w = (Inr g, w') \<and> fonts w' = fonts w \<and>
                 logging w' = logging w \<and> used_font_logged w' = used_font_logged w \<and>
                 cairoContext w' \<noteq> None"
proof -
  from ok valid have t: "truthy (font_name (fonts w ! f))" by (simp add: heap_ok_def)
  from ok valid obtain c where c: "cairoContext w = Some c" by (auto simp: heap_ok_def)
  show ?thesis
  proof (cases "getGlyph_cache w (f, ch)")
    case (Some g)
    with c show ?thesis by (simp add: getGlyph_hit)
  next
    case None
    then show ?thesis
      by (simp add: getGlyph_miss FontGlyph_init_stored[OF valid t c] case_prod_beta)
  qed
qed

lemma getGlyph_heap_ok:
  assumes "heap_ok w" shows "heap_ok (snd (getGlyph e f ch w))"
proof (cases "f < length (fonts w)")
  case True
  from getGlyph_stored[OF assms True, of e ch] assms show ?thesis
    by (auto simp: heap_ok_def)
next
  case False
  with assms show ?thesis
    by (cases "getGlyph_cache w (f, ch)") (simp_all add: getGlyph_def FontGlyph_init_def)
qed

lemma run_heap_ok: "heap_ok w \<Longrightarrow> heap_ok (run e cs w)"
proof (induction cs arbitrary: w)
  case Nil
  then show ?case by simp
next
  case (Cons c cs)
  from Cons.prems have "heap_ok (exec e c w)"
    by (cases c) (simp_all add: Font_get_heap_ok getGlyph_heap_ok)
  then show ?case by (simp add: Cons.IH)
qed

lemma getGlyph_returns:
  assumes "f < length (fonts (run e cs init_world))"
  shows "\<exists>g w'. getGlyph e f ch (run e cs init_world) = (Inr g, w') \<and>
                 fonts w' = fonts (run e cs init_world) \<and>
                 logging w' = logging (run e cs init_world)"
  using getGlyph_stored[OF run_heap_ok[OF heap_ok_init] assms, of e ch] by blast

lemma Font_get_returns:
  assumes "\<not> (i \<and> (\<exists>d. FONT_NAME e = Some d \<and> d ''normal'' = None))"
  shows "\<exists>r w'. Font_get e n z i (run e cs init_world) = (Inr r, w') \<and>
                 r < length (fonts w') \<and> truthy (font_name (fonts w' ! r))"
proof -
  let ?w = "run e cs init_world"
  have ok: "heap_ok ?w" by (simp add: run_heap_ok heap_ok_init)
  have cok: "caches_ok ?w" by (simp add: run_caches_ok caches_ok_init)
  show ?thesis
  proof (cases "get_cache ?w (n, z, i)")
    case (Some r)
    with cok have "r < length (fonts ?w)" unfolding caches_ok_def by blast
    moreover with ok have "truthy (font_name (fonts ?w ! r))" by (simp add: heap_ok_def)
    ultimately show ?thesis using Some by (simp add: Font_get_hit)
  next
    case None
    obtain x w1 where r: "resolve e i ?w = (x, w1)" by (cases "resolve e i ?w") auto
    from assms resolve_error[of e i ?w] r obtain fn where x: "x = Inr fn"
      by (cases x) auto
    from r x have "truthy fn" by (simp add: resolve_Inr_truthy)
    with None r x show ?thesis
      by (simp add: Font_get_miss Font_init_resolve case_prod_beta)
  qed
qed

subsection \<open>Requests without a setting\<close>

lemma Font_get_unset:
  assumes u: "FONT_NAME e = None"
  shows "if get_cache w (n, z, i) = None
         then logging (snd (Font_get e n z i w)) = logging w @ missing_setting_messages e \<and>
              used_font_logged (snd (Font_get e n z i w)) = used_font_logged w \<and>
              dom (get_cache (snd (Font_get e n z i w))) = insert (n, z, i) (dom (get_cache w))
         else snd (Font_get e n z i w) = w"
proof (cases "get_cache w (n, z, i)")
  case (Some r)
  then show ?thesis by (simp add: Font_get_hit)
next
  case None
  from resolve_unset[OF u, of i w] obtain s where
    "resolve e i w = (Inr (Some s), w\<lparr>logging := logging w @ missing_setting_messages e\<rparr>)" ..
  with None show ?thesis
    by (simp add: Font_get_miss Font_init_resolve case_prod_beta)
qed

lemma run_get_calls_unset:
  assumes u: "FONT_NAME e = None"
  shows "logging (run e (get_calls ks) w) =
           logging w @
           concat (replicate (card (set ks - dom (get_cache w))) (missing_setting_messages e)) \<and>
         used_font_logged (run e (get_calls ks) w) = used_font_logged w"
proof (induction ks arbitrary: w)
  case Nil
  then show ?case by (simp add: get_calls_def)
next
  case (Cons k ks)
  obtain n z i where k: "k = (n, z, i)" by (cases k) auto
  let ?w = "snd (Font_get e n z i w)"
  have r: "run e (get_calls (k # ks)) w = run e (get_calls ks) ?w"
    by (simp add: get_calls_def k)
  show ?case
  proof (cases "get_cache w (n, z, i)")
    case (Some r')
    with Font_get_unset[OF u, of w n z i] have same: "?w = w" by simp
    from Some have "set (k # ks) - dom (get_cache w) = set ks - dom (get_cache w)"
      by (auto simp: k)
    with Cons.IH[of w] r same show ?thesis by simp
  next
    case None
    with Font_get_unset[OF u, of w n z i]
    have l: "logging ?w = logging w @ missing_setting_messages e"
      and f: "used_font_logged ?w = used_font_logged w"
      and d: "dom (get_cache ?w) = insert k (dom (get_cache w))"
      by (simp_all add: k)
    from None have "k \<notin> dom (get_cache w)" by (auto simp: k)
    then have "set (k # ks) - dom (get_cache w) = insert k (set ks - insert k (dom (get_cache w)))"
      by auto
    then have "card (set (k # ks) - dom (get_cache w)) =
               Suc (card (set ks - insert k (dom (get_cache w))))"
      by simp
    with Cons.IH[of ?w] r l f d show ?thesis by simp
  qed
qed

subsection \<open>Evaluated states\<close>

lemma sans_loaded_eq:
  "sans_loaded =
     \<lparr>cairoContext = Some \<lparr>current = \<lparr>font_face = None, font_size = 10\<rparr>, saved = [],
         history = [Save, Select_font_face ''Helvetica'' FONT_SLANT_NORMAL FONT_WEIGHT_NORMAL,
                    Set_font_size 12, Font_extents, Restore]\<rparr>,
      used_font_logged = False, logging = [Error_no_FONT_NAME],
      fonts = [\<lparr>name = ''sans'', size_pt = 12, isItalic = False, font_name = Some ''Helvetica'',
                slant = FONT_SLANT_NORMAL, ascent = 10, descent = 3, height = 13,
                maxXAdvance = 12, maxYAdvance = 0\<rparr>],
      get_cache = [(''sans'', 12, False) \<mapsto> 0], glyphs = [], getGlyph_cache = Map.empty\<rparr>"
  by (simp add: sans_loaded_def unset_env_def eval_defs)

lemma Font_get_sans:
  "Font_get unset_env ''sans'' 12 False (run unset_env [] init_world) = (Inr 0, sans_loaded)"
  by (simp add: sans_loaded_def)
     (simp add: unset_env_def eval_defs)

lemma FontGlyph_init_A:
  "FontGlyph_init unset_env 65 0 sans_loaded =
     (Inr glyph_A, snd (FontGlyph_init unset_env 65 0 sans_loaded))"
proof -
  have "fst (FontGlyph_init unset_env 65 0 sans_loaded) = Inr glyph_A"
    by (simp add: sans_loaded_eq glyph_A_def unset_env_def eval_defs char_of_65)
  then show ?thesis by (simp add: prod_eq_iff)
qed

lemma getGlyph_A:
  "getGlyph unset_env 0 65 (run unset_env [Get ''sans'' 12 False] init_world) = (Inr 0, A_loaded)"
proof -
  have "fst (getGlyph unset_env 0 65 sans_loaded) = Inr 0"
    by (simp add: sans_loaded_eq unset_env_def eval_defs)
  then have "getGlyph unset_env 0 65 sans_loaded = (Inr 0, A_loaded)"
    by (simp add: prod_eq_iff A_loaded_def)
  then show ?thesis by (simp only: sans_loaded_def)
qed

lemma FontGlyph_init_sized:
  "FontGlyph_init sized_env 65 0 sans_loaded =
     (Inr glyph_A, snd (FontGlyph_init sized_env 65 0 sans_loaded))"
proof -
  have "fst (FontGlyph_init sized_env 65 0 sans_loaded) = Inr glyph_A"
    by (simp add: sans_loaded_eq glyph_A_def sized_env_def unset_env_def eval_defs char_of_65)
  then show ?thesis by (simp add: prod_eq_iff)
qed

lemma fonts_sized:
  "fonts (snd (FontGlyph_init sized_env 65 0 sans_loaded)) ! 0 =
     \<lparr>name = ''sans'', size_pt = 12, isItalic = False, font_name = Some ''Helvetica'',
      slant = FONT_SLANT_NORMAL, ascent = 10, descent = 3, height = 13,
      maxXAdvance = 12, maxYAdvance = 0\<rparr>"
  by (simp add: sans_loaded_eq sized_env_def unset_env_def eval_defs)

section \<open>The claims\<close>

text \<open>
  Claim C1: for every setting and every request, \<open>Font.get\<close> returns a Font whose
  \<open>font_name\<close> is not \<open>None\<close> and never raises. The code does not do this: the italic
  branch reads \<open>config.FONT_NAME["normal"]\<close> without the \<open>has_key\<close> test that the branch
  for normal fonts makes, so with a setting that has no \<open>normal\<close> entry and no usable
  \<open>italic\<close> entry an italic request leaves \<open>Font.get\<close> with a KeyError, on both
  platform branches. Every other request returns a Font with a non-empty identifier
  (\<open>Font_get_returns\<close>), and KeyError is the only exception of the resolution
  (\<open>resolve_error\<close>).
\<close>

theorem Font_get_italic_without_normal:
  "fst (Font_get (example_env ''linux2'' (Some empty_setting)) ''sans'' 12 True init_world) =
     Inl (KeyError ''normal'') \<and>
   fst (Font_get (example_env ''win32'' (Some empty_setting)) ''sans'' 12 True init_world) =
     Inl (KeyError ''normal'')"
  by (simp add: eval_defs)

text \<open>
  Claim C2: the glyph metrics are \<open>xMin = xBearing\<close>, \<open>xMax = xBearing + width\<close>,
  \<open>advance = xAdvance\<close>, and \<open>yMin \<le> yMax\<close> whenever \<open>height \<ge> 0\<close>. The code computes
  \<open>yMin = - yBearing + height\<close> and \<open>yMax = - yBearing\<close>, so \<open>yMin\<close> is \<open>yMax\<close> plus the
  height (\<open>FontGlyph_yMin_yMax\<close>): for a glyph ten units tall that stands on the
  baseline it yields \<open>yMin = 20\<close> above \<open>yMax = 10\<close>, where the glyph box the comment
  of the code refers to has \<open>yMin = 0\<close>.
\<close>

theorem FontGlyph_yMin_above_yMax:
  "fst (FontGlyph_init (example_env ''linux2'' None) 65 0
          (run (example_env ''linux2'' None) [Get ''sans'' 12 False] init_world)) =
     Inr \<lparr>charAsUtf8 = ''A'', char = 65, font = 0, xMin = 0, xMax = 8,
           yMin = 20, yMax = 10, advance = 9\<rparr>"
  by (simp add: eval_defs char_of_65)

text \<open>
  Claim C3: two calls of \<open>Font.get\<close> with equal triples return the identical Font
  object, and calls with differing triples return distinct objects. Once a call has
  returned the object \<open>r\<close>, every later call with the same triple, after any further
  calls, returns \<open>r\<close> and changes nothing, and every later call with another triple
  that returns, returns another object.
\<close>

theorem Font_get_flyweight:
  assumes "Font_get e n z i (run e cs init_world) = (Inr r, w1)"
  shows "Font_get e n z i (run e cs' w1) = (Inr r, run e cs' w1) \<and>
         (\<forall>n' z' i' r' w3.
            (n', z', i') \<noteq> (n, z, i) \<longrightarrow>
            Font_get e n' z' i' (run e cs' w1) = (Inr r', w3) \<longrightarrow> r' \<noteq> r)"
proof -
  have "caches_ok (run e cs init_world)" by (simp add: run_caches_ok caches_ok_init)
  from Font_get_caches_ok[OF this, of e n z i] assms have ok1: "caches_ok w1" by simp
  then have ok2: "caches_ok (run e cs' w1)" by (rule run_caches_ok)
  from assms have "get_cache w1 (n, z, i) = Some r" by (rule Font_get_cached)
  then have c2: "get_cache (run e cs' w1) (n, z, i) = Some r" by (rule run_keeps_fonts)
  then have "Font_get e n z i (run e cs' w1) = (Inr r, run e cs' w1)" by (rule Font_get_hit)
  moreover have "r' \<noteq> r"
    if "(n', z', i') \<noteq> (n, z, i)" and "Font_get e n' z' i' (run e cs' w1) = (Inr r', w3)"
    for n' z' i' r' w3
    using Font_get_other_key[OF ok2 c2 that(2) that(1)] .
  ultimately show ?thesis by blast
qed

theorem Font_get_flyweight_witness:
  "Font_get unset_env ''sans'' 12 False (run unset_env [] init_world) = (Inr 0, sans_loaded) \<and>
   Font_get unset_env ''sans'' 12 False (run unset_env [GetGlyph 0 65] sans_loaded) =
     (Inr 0, run unset_env [GetGlyph 0 65] sans_loaded)"
  using Font_get_flyweight [OF Font_get_sans, of "[GetGlyph 0 65]"] Font_get_sans
  by blast

text \<open>
  Claim C4: with the setting missing, exactly one diagnostic is logged for the whole
  process, whatever the sequence of \<open>Font.get\<close> calls. This fails: two requests with
  different triples log the missing setting twice, and the flag is never set.
\<close>

theorem missing_setting_logged_twice:
  "logging (run (example_env ''linux2'' None)
              [Get ''sans'' 12 False, Get ''serif'' 12 False] init_world) =
     [Error_no_FONT_NAME, Error_no_FONT_NAME] \<and>
   \<not> used_font_logged (run (example_env ''linux2'' None)
              [Get ''sans'' 12 False, Get ''serif'' 12 False] init_world)"
  by (simp add: eval_defs)

text \<open>
  Claim C4, amended: with the setting missing, every call of \<open>Font.get\<close> with a triple
  not requested before logs the missing setting once (followed, on the Windows branch,
  by the warning about the default font), and a call with a triple requested before
  logs nothing; a sequence of calls logs these messages once per distinct triple, and
  the flag stays unset.
\<close>

theorem missing_setting_logged_per_new_key:
  assumes "FONT_NAME e = None"
  shows "logging (run e (get_calls ks) init_world) =
           concat (replicate (card (set ks)) (missing_setting_messages e)) \<and>
         \<not> used_font_logged (run e (get_calls ks) init_world)"
  using run_get_calls_unset[OF assms, of ks init_world]
  by (simp add: init_world_def)

theorem missing_setting_logged_per_new_key_witness:
  "FONT_NAME (example_env ''win32'' None) = None \<and>
   logging (run (example_env ''win32'' None)
              (get_calls [(''sans'', 12, False), (''serif'', 12, True), (''sans'', 12, False)])
              init_world) =
     [Error_no_FONT_NAME, Warning_default_Arial, Error_no_FONT_NAME, Warning_default_Arial]"
proof -
  have h: "FONT_NAME (example_env ''win32'' None) = None"
    by (simp add: example_env_def)
  have c: "card (set [(''sans'', 12::real, False), (''serif'', 12, True), (''sans'', 12, False)]) = 2"
    by (subst card_set) simp
  have m: "missing_setting_messages (example_env ''win32'' None) =
             [Error_no_FONT_NAME, Warning_default_Arial]"
    by (simp add: missing_setting_messages_def is_win_def example_env_def)
  from missing_setting_logged_per_new_key
         [OF h, of "[(''sans'', 12, False), (''serif'', 12, True), (''sans'', 12, False)]"]
  show ?thesis
    by (simp only: c m h) (simp add: numeral_2_eq_2)
qed

text \<open>
  Claim C5: with a setting that has a \<open>normal\<close> entry only, an italic request resolves
  to the value of that entry, which is also what the request that is not italic
  resolves to. The first half fails on the Windows branch, where the identifier is the
  file path the font registry gives for that value.
\<close>

theorem italic_fallback_is_registry_path:
  "map font_name (fonts (run (example_env ''win32'' (Some only_normal))
                           [Get ''sans'' 12 True] init_world)) =
     [Some ''C:/Windows/Fonts/consola.ttf''] \<and>
   only_normal ''normal'' = Some ''Consolas'' \<and> only_normal ''italic'' = None"
  by (simp add: eval_defs)

text \<open>
  Claim C5, amended: with a setting that has a \<open>normal\<close> entry only, an italic request
  and the same request that is not italic both build a Font, with the same identifier,
  resolved from the \<open>normal\<close> entry: on the Windows branch the file path the registry
  has for the value of the entry (the Arial file of the fonts directory when it has
  none), elsewhere the value itself (Helvetica when the value is the empty string).
\<close>

theorem italic_resolves_like_normal:
  assumes "FONT_NAME e = Some d" and "d ''italic'' = None" and "d ''normal'' = Some v"
  shows "\<exists>f w1 g w2.
           Font_init e n z True w = (Inr f, w1) \<and> Font_init e n z False w' = (Inr g, w2) \<and>
           font_name f = font_name g \<and>
           font_name f =
             Some (if is_win e then
                     (case get_font_detail e v of
                        None \<Rightarrow> os_path_join (fonts_dir e) ''arial.ttf''
                      | Some detail \<Rightarrow>
                          if filepath detail = [] then os_path_join (fonts_dir e) ''arial.ttf''
                          else filepath detail)
                   else if v = [] then ''Helvetica'' else v)"
proof -
  obtain r1 x1 where a: "resolve e True w = (r1, x1)" by (cases "resolve e True w") auto
  obtain r2 x2 where b: "resolve e False w' = (r2, x2)" by (cases "resolve e False w'") auto
  from resolve_only_normal[OF assms, of True w] a resolve_only_normal[OF assms, of False w'] b
  show ?thesis
    by (simp add: Font_init_resolve case_prod_beta)
qed

theorem italic_resolves_like_normal_witness:
  "FONT_NAME (example_env ''win32'' (Some only_normal)) = Some only_normal \<and>
   only_normal ''italic'' = None \<and> only_normal ''normal'' = Some ''Consolas'' \<and>
   (\<exists>f w1 g w2.
      Font_init (example_env ''win32'' (Some only_normal)) ''sans'' 12 True init_world =
        (Inr f, w1) \<and>
      Font_init (example_env ''win32'' (Some only_normal)) ''sans'' 12 False sans_loaded =
        (Inr g, w2) \<and>
      font_name f = font_name g \<and> font_name f = Some ''C:/Windows/Fonts/consola.ttf'')"
proof -
  have h1: "FONT_NAME (example_env ''win32'' (Some only_normal)) = Some only_normal"
    by (simp add: example_env_def)
  have h2: "only_normal ''italic'' = None" by (simp add: only_normal_def)
  have h3: "only_normal ''normal'' = Some ''Consolas''" by (simp add: only_normal_def)
  have v: "(if is_win (example_env ''win32'' (Some only_normal)) then
              (case get_font_detail (example_env ''win32'' (Some only_normal)) ''Consolas'' of
                 None \<Rightarrow> os_path_join (fonts_dir (example_env ''win32'' (Some only_normal)))
                           ''arial.ttf''
               | Some detail \<Rightarrow>
                   if filepath detail = []
                   then os_path_join (fonts_dir (example_env ''win32'' (Some only_normal)))
                          ''arial.ttf''
                   else filepath detail)
            else if ''Consolas'' = [] then ''Helvetica'' else ''Consolas'') =
           ''C:/Windows/Fonts/consola.ttf''"
    by (simp add: is_win_def example_env_def)
  from italic_resolves_like_normal [OF h1 h2 h3, of "''sans''" 12 init_world sans_loaded]
  show ?thesis
    by (simp only: v h1 h2 h3 simp_thms)
qed

text \<open>
  Claim C6: once a call of \<open>loadInto\<close> has set \<open>font_name\<close>, every later call leaves
  it unchanged and uses the stored value. After a call that returned, a further call,
  in any environment, context and state, selects the stored name, returns the same
  Font and leaves the log and the flag as they were: the resolution is not run again.
\<close>

theorem loadInto_resolves_once:
  assumes "loadInto e self c w = (Inr u, self1, c1, w1)"
  shows "\<exists>n. font_name self1 = Some n \<and>
             loadInto e' self1 c' w' =
               (Inr (), self1,
                set_font_size (size_pt self1)
                  (select_font_face n (slant self1) FONT_WEIGHT_NORMAL c'), w')"
proof -
  from loadInto_result[where e=e and self=self and c=c and w=w] assms
  have t: "truthy (font_name self1)" by simp
  then obtain n where n: "font_name self1 = Some n" by (cases "font_name self1") simp_all
  with loadInto_stored[OF t, of e' c' w'] show ?thesis by simp
qed

theorem loadInto_resolves_once_witness:
  "loadInto unset_env
     \<lparr>name = ''sans'', size_pt = 12, isItalic = False, font_name = None,
      slant = FONT_SLANT_NORMAL\<rparr> new_context init_world =
     (Inr (),
      \<lparr>name = ''sans'', size_pt = 12, isItalic = False, font_name = Some ''Helvetica'',
       slant = FONT_SLANT_NORMAL\<rparr>,
      set_font_size 12
        (select_font_face ''Helvetica'' FONT_SLANT_NORMAL FONT_WEIGHT_NORMAL new_context),
      log_msg Error_no_FONT_NAME init_world) \<and>
   loadInto (example_env ''win32'' (Some only_normal))
     \<lparr>name = ''sans'', size_pt = 12, isItalic = False, font_name = Some ''Helvetica'',
      slant = FONT_SLANT_NORMAL\<rparr> new_context sans_loaded =
     (Inr (),
      \<lparr>name = ''sans'', size_pt = 12, isItalic = False, font_name = Some ''Helvetica'',
       slant = FONT_SLANT_NORMAL\<rparr>,
      set_font_size 12
        (select_font_face ''Helvetica'' FONT_SLANT_NORMAL FONT_WEIGHT_NORMAL new_context),
      sans_loaded)"
proof -
  have h: "loadInto unset_env
     \<lparr>name = ''sans'', size_pt = 12, isItalic = False, font_name = None,
      slant = FONT_SLANT_NORMAL\<rparr> new_context init_world =
     (Inr (),
      \<lparr>name = ''sans'', size_pt = 12, isItalic = False, font_name = Some ''Helvetica'',
       slant = FONT_SLANT_NORMAL\<rparr>,
      set_font_size 12
        (select_font_face ''Helvetica'' FONT_SLANT_NORMAL FONT_WEIGHT_NORMAL new_context),
      log_msg Error_no_FONT_NAME init_world)"
    by (simp add: unset_env_def loadInto_def resolve_def resolve_other_def is_win_def
        example_env_def)
  from loadInto_resolves_once
         [OF h, of "example_env ''win32'' (Some only_normal)" new_context sans_loaded] h
  show ?thesis by simp
qed

text \<open>
  Claim C7: two calls of \<open>getGlyph\<close> with the same character on the same Font return
  the identical FontGlyph object, and calls with different characters return distinct
  objects.
\<close>

theorem getGlyph_memoized:
  assumes "getGlyph e f ch (run e cs init_world) = (Inr g, w1)"
  shows "getGlyph e f ch (run e cs' w1) = (Inr g, run e cs' w1) \<and>
         (\<forall>ch' g' w3.
            ch' \<noteq> ch \<longrightarrow> getGlyph e f ch' (run e cs' w1) = (Inr g', w3) \<longrightarrow> g' \<noteq> g)"
proof -
  have "caches_ok (run e cs init_world)" by (simp add: run_caches_ok caches_ok_init)
  from getGlyph_caches_ok[OF this, of e f ch] assms have ok1: "caches_ok w1" by simp
  then have ok2: "caches_ok (run e cs' w1)" by (rule run_caches_ok)
  from assms have "getGlyph_cache w1 (f, ch) = Some g" by (rule getGlyph_cached)
  then have c2: "getGlyph_cache (run e cs' w1) (f, ch) = Some g" by (rule run_keeps_glyphs)
  then have "getGlyph e f ch (run e cs' w1) = (Inr g, run e cs' w1)" by (rule getGlyph_hit)
  moreover have "g' \<noteq> g"
    if "ch' \<noteq> ch" and "getGlyph e f ch' (run e cs' w1) = (Inr g', w3)" for ch' g' w3
  proof -
    from that(1) have "(f, ch') \<noteq> (f, ch)" by simp
    from getGlyph_other_key[OF ok2 c2 that(2) this] show ?thesis .
  qed
  ultimately show ?thesis by blast
qed

theorem getGlyph_memoized_witness:
  "getGlyph unset_env 0 65 (run unset_env [Get ''sans'' 12 False] init_world) = (Inr 0, A_loaded) \<and>
   getGlyph unset_env 0 65 (run unset_env [Get ''serif'' 9 True] A_loaded) =
     (Inr 0, run unset_env [Get ''serif'' 9 True] A_loaded)"
  using getGlyph_memoized [OF getGlyph_A, of "[Get ''serif'' 9 True]"] getGlyph_A
  by blast

text \<open>
  Claim C8: when the extents the backend reports for the character have
  \<open>width \<ge> 0\<close> and \<open>xAdvance \<ge> 0\<close>, the glyph that is built has \<open>xMin \<le> xMax\<close> and
  \<open>advance \<ge> 0\<close>. The extents are those of the one query the constructor makes: for
  the encoded character, with the face, slant and size of the Font selected. They are
  the extents the glyph is built from, and nothing is asked of the backend at any other
  selected state.
\<close>

theorem FontGlyph_x_extent_and_advance:
  assumes "FontGlyph_init e ch f w = (Inr g, w')"
    and "font_name (fonts w' ! f) = Some n"
    and "text_extents e
           \<lparr>font_face = Some (n, slant (fonts w' ! f), FONT_WEIGHT_NORMAL),
            font_size = size_pt (fonts w' ! f)\<rparr> (utf8_encode ch) =
         (xb, yb, wd, ht, xa, ya)"
    and "0 \<le> wd" and "0 \<le> xa"
  shows "xMin g = xb \<and> xMax g = xb + wd \<and> advance g = xa \<and>
         xMin g \<le> xMax g \<and> 0 \<le> advance g"
  using FontGlyph_init_result[OF assms(1)] assms(2-5) by simp

theorem FontGlyph_x_extent_and_advance_witness:
  "fst (FontGlyph_init sized_env 65 0 sans_loaded) = Inr glyph_A \<and>
   text_extents sized_env
     \<lparr>font_face = Some (''Helvetica'', FONT_SLANT_NORMAL, FONT_WEIGHT_NORMAL), font_size = 12\<rparr>
     (utf8_encode 65) = (0, - 10, 8, 10, 9, 0) \<and>
   text_extents sized_env
     \<lparr>font_face = None, font_size = 10\<rparr> (utf8_encode 65) = (0, - 10, - 8, 10, - 9, 0) \<and>
   xMin glyph_A = 0 \<and> xMax glyph_A = 0 + 8 \<and> advance glyph_A = 9 \<and>
   xMin glyph_A \<le> xMax glyph_A \<and> 0 \<le> advance glyph_A"
proof -
  have n: "font_name (fonts (snd (FontGlyph_init sized_env 65 0 sans_loaded)) ! 0) =
             Some ''Helvetica''"
    by (simp add: fonts_sized)
  have x: "text_extents sized_env
             \<lparr>font_face = Some (''Helvetica'',
                  slant (fonts (snd (FontGlyph_init sized_env 65 0 sans_loaded)) ! 0),
                  FONT_WEIGHT_NORMAL),
              font_size = size_pt (fonts (snd (FontGlyph_init sized_env 65 0 sans_loaded)) ! 0)\<rparr>
             (utf8_encode 65) = (0, - 10, 8, 10, 9, 0)"
    by (simp add: fonts_sized) (simp add: sized_env_def)
  have y: "text_extents sized_env \<lparr>font_face = None, font_size = 10\<rparr> (utf8_encode 65) =
             (0, - 10, - 8, 10, - 9, 0)"
    by (simp add: sized_env_def)
  have p: "(0::real) \<le> 8" "(0::real) \<le> 9" by simp_all
  from FontGlyph_x_extent_and_advance [OF FontGlyph_init_sized n x p] FontGlyph_init_sized x y
  show ?thesis by (simp add: fonts_sized) (metis fst_conv)
qed

text \<open>
  Claim C9: \<open>getKerningDistance\<close> returns 0.0 for every pair of characters and every
  Font.
\<close>

theorem getKerningDistance_zero: "getKerningDistance self charLeft charRight = 0"
  by (simp add: getKerningDistance_def)

text \<open>
  Claim C10: the constructors of Font and FontGlyph save the shared context before they
  select face and size and restore it before they return, so after \<open>Font.get\<close> or
  \<open>getGlyph\<close> has returned the selected face and size, and the stack of saved states,
  are what they were before. When an object is built, the calls added to the context
  are \<open>save\<close>, \<open>select_font_face\<close>, \<open>set_font_size\<close>, the extents query and
  \<open>restore\<close>, in this order.
\<close>

theorem construction_restores_context:
  "(Font_get e n z i w = (Inr r, w') \<longrightarrow>
      current (context_of w') = current (context_of w) \<and>
      saved (context_of w') = saved (context_of w) \<and>
      (get_cache w (n, z, i) = None \<longrightarrow>
         (\<exists>fn. history (context_of w') =
                 history (context_of w) @
                   [Save,
                    Select_font_face fn (if i then FONT_SLANT_ITALIC else FONT_SLANT_NORMAL)
                      FONT_WEIGHT_NORMAL,
                    Set_font_size z, Font_extents, Restore]))) \<and>
   (getGlyph e f ch w = (Inr g, w'') \<longrightarrow>
      current (context_of w'') = current (context_of w) \<and>
      saved (context_of w'') = saved (context_of w) \<and>
      (getGlyph_cache w (f, ch) = None \<longrightarrow>
         (\<exists>fn sl sz. history (context_of w'') =
                 history (context_of w) @
                   [Save, Select_font_face fn sl FONT_WEIGHT_NORMAL, Set_font_size sz,
                    Text_extents (utf8_encode ch), Restore])))"
proof (intro conjI impI)
  assume a: "Font_get e n z i w = (Inr r, w')"
  have both: "current (context_of w') = current (context_of w) \<and>
              saved (context_of w') = saved (context_of w)"
  proof (cases "get_cache w (n, z, i)")
    case (Some q)
    with a show ?thesis by (simp add: Font_get_hit)
  next
    case None
    obtain x w1 where fi: "Font_init e n z i w = (x, w1)" by (cases "Font_init e n z i w") auto
    with a None obtain fo where x: "x = Inr fo" by (cases x) (simp_all add: Font_get_miss)
    from Font_init_result[OF fi[unfolded x]] a None fi x show ?thesis
      by (auto simp: Font_get_miss)
  qed
  from both show "current (context_of w') = current (context_of w)" ..
  from both show "saved (context_of w') = saved (context_of w)" ..
  assume None: "get_cache w (n, z, i) = None"
  obtain x w1 where fi: "Font_init e n z i w = (x, w1)" by (cases "Font_init e n z i w") auto
  with a None obtain fo where x: "x = Inr fo" by (cases x) (simp_all add: Font_get_miss)
  from Font_init_result[OF fi[unfolded x]] a None fi x
  show "\<exists>fn. history (context_of w') =
              history (context_of w) @
                [Save,
                 Select_font_face fn (if i then FONT_SLANT_ITALIC else FONT_SLANT_NORMAL)
                   FONT_WEIGHT_NORMAL,
                 Set_font_size z, Font_extents, Restore]"
    by (auto simp: Font_get_miss)
next
  assume a: "getGlyph e f ch w = (Inr g, w'')"
  have both: "current (context_of w'') = current (context_of w) \<and>
              saved (context_of w'') = saved (context_of w)"
  proof (cases "getGlyph_cache w (f, ch)")
    case (Some q)
    with a show ?thesis by (simp add: getGlyph_hit)
  next
    case None
    obtain x w1 where fi: "FontGlyph_init e ch f w = (x, w1)"
      by (cases "FontGlyph_init e ch f w") auto
    with a None obtain gl where x: "x = Inr gl" by (cases x) (simp_all add: getGlyph_miss)
    from FontGlyph_init_result[OF fi[unfolded x]] a None fi x show ?thesis
      by (auto simp: getGlyph_miss)
  qed
  from both show "current (context_of w'') = current (context_of w)" ..
  from both show "saved (context_of w'') = saved (context_of w)" ..
  assume None: "getGlyph_cache w (f, ch) = None"
  obtain x w1 where fi: "FontGlyph_init e ch f w = (x, w1)"
    by (cases "FontGlyph_init e ch f w") auto
  with a None obtain gl where x: "x = Inr gl" by (cases x) (simp_all add: getGlyph_miss)
  from FontGlyph_init_result[OF fi[unfolded x]] a None fi x
  have "history (context_of w'') =
          history (context_of w) @
            [Save,
             Select_font_face (the (font_name (fonts w1 ! f))) (slant (fonts w1 ! f))
               FONT_WEIGHT_NORMAL,
             Set_font_size (size_pt (fonts w1 ! f)), Text_extents (utf8_encode ch), Restore]"
    by (auto simp: getGlyph_miss)
  then show "\<exists>fn sl sz. history (context_of w'') =
              history (context_of w) @
                [Save, Select_font_face fn sl FONT_WEIGHT_NORMAL, Set_font_size sz,
                 Text_extents (utf8_encode ch), Restore]"
    by blast
qed

theorem construction_restores_context_witness:
  "Font_get unset_env ''sans'' 12 False init_world = (Inr 0, sans_loaded) \<and>
   get_cache init_world (''sans'', 12, False) = None \<and>
   current (context_of sans_loaded) = current (context_of init_world) \<and>
   saved (context_of sans_loaded) = saved (context_of init_world) \<and>
   getGlyph unset_env 0 65 sans_loaded = (Inr 0, A_loaded) \<and>
   getGlyph_cache sans_loaded (0, 65) = None \<and>
   current (context_of A_loaded) = current (context_of sans_loaded) \<and>
   saved (context_of A_loaded) = saved (context_of sans_loaded)"
proof -
  have a: "Font_get unset_env ''sans'' 12 False init_world = (Inr 0, sans_loaded)"
    using Font_get_sans by simp
  have b: "getGlyph unset_env 0 65 sans_loaded = (Inr 0, A_loaded)"
    using getGlyph_A by (simp only: sans_loaded_def)
  have c: "get_cache init_world (''sans'', 12, False) = None" by (simp add: init_world_def)
  have d: "getGlyph_cache sans_loaded (0, 65) = None" by (simp add: sans_loaded_eq)
  from construction_restores_context
         [of unset_env "''sans''" 12 False init_world 0 sans_loaded 0 65 0 A_loaded]
       construction_restores_context
         [of unset_env "''sans''" 12 False sans_loaded 0 sans_loaded 0 65 0 A_loaded] a b c d
  show ?thesis by simp
qed

end
